theory Spec2Isabelle
  imports Complex_Main
begin

section \<open>Audio quality metrics of \<open>quality_comparison.py\<close>\<close>

text \<open>
  The class \<open>AudioQualityAnalyzer\<close> computes its metrics on numpy arrays of samples.
  A sample buffer is a list of reals: the samples are finite numbers, and the arithmetic
  on them is exact (rounding, overflow and underflow of the machine format, and the sign
  of zero, are outside this model). What numpy adds to the finite numbers is kept: the
  results \<open>inf\<close>, \<open>-inf\<close> and \<open>nan\<close>, and the exceptions raised on empty arrays.
\<close>

subsection \<open>Values and errors\<close>

datatype npfloat = Fin real | PInf | NInf | NaN

datatype error = ValueError | ZeroDivisionError | IndexError

text \<open>\<open>audio**2\<close>: the elementwise square.\<close>

definition np_square :: "real list \<Rightarrow> real list" where
  "np_square xs = map (\<lambda>x. x * x) xs"

text \<open>\<open>np.mean\<close>: the sum over the count; on an empty array the quotient is \<open>0.0/0\<close>, a \<open>nan\<close>.\<close>

definition np_mean :: "real list \<Rightarrow> npfloat" where
  "np_mean xs = (if xs = [] then NaN else Fin (sum_list xs / real (length xs)))"

fun np_sqrt :: "npfloat \<Rightarrow> npfloat" where
  "np_sqrt (Fin x) = (if x < 0 then NaN else Fin (sqrt x))"
| "np_sqrt PInf = PInf"
| "np_sqrt NInf = NaN"
| "np_sqrt NaN = NaN"

fun np_log10 :: "npfloat \<Rightarrow> npfloat" where
  "np_log10 (Fin x) = (if x < 0 then NaN else if x = 0 then NInf else Fin (log 10 x))"
| "np_log10 PInf = PInf"
| "np_log10 NInf = NaN"
| "np_log10 NaN = NaN"

fun np_mul :: "npfloat \<Rightarrow> npfloat \<Rightarrow> npfloat" where
  "np_mul NaN b = NaN"
| "np_mul a NaN = NaN"
| "np_mul (Fin a) (Fin b) = Fin (a * b)"
| "np_mul (Fin a) PInf = (if 0 < a then PInf else if a < 0 then NInf else NaN)"
| "np_mul (Fin a) NInf = (if 0 < a then NInf else if a < 0 then PInf else NaN)"
| "np_mul PInf (Fin b) = (if 0 < b then PInf else if b < 0 then NInf else NaN)"
| "np_mul NInf (Fin b) = (if 0 < b then NInf else if b < 0 then PInf else NaN)"
| "np_mul PInf PInf = PInf"
| "np_mul PInf NInf = NInf"
| "np_mul NInf PInf = NInf"
| "np_mul NInf NInf = PInf"

fun np_div :: "npfloat \<Rightarrow> npfloat \<Rightarrow> npfloat" where
  "np_div NaN b = NaN"
| "np_div a NaN = NaN"
| "np_div (Fin a) (Fin b) =
     (if b \<noteq> 0 then Fin (a / b) else if 0 < a then PInf else if a < 0 then NInf else NaN)"
| "np_div (Fin a) PInf = Fin 0"
| "np_div (Fin a) NInf = Fin 0"
| "np_div PInf (Fin b) = (if 0 \<le> b then PInf else NInf)"
| "np_div NInf (Fin b) = (if 0 \<le> b then NInf else PInf)"
| "np_div PInf PInf = NaN"
| "np_div PInf NInf = NaN"
| "np_div NInf PInf = NaN"
| "np_div NInf NInf = NaN"

fun np_sub :: "npfloat \<Rightarrow> npfloat \<Rightarrow> npfloat" where
  "np_sub NaN b = NaN"
| "np_sub a NaN = NaN"
| "np_sub (Fin a) (Fin b) = Fin (a - b)"
| "np_sub (Fin a) PInf = NInf"
| "np_sub (Fin a) NInf = PInf"
| "np_sub PInf (Fin b) = PInf"
| "np_sub NInf (Fin b) = NInf"
| "np_sub PInf PInf = NaN"
| "np_sub PInf NInf = PInf"
| "np_sub NInf PInf = NInf"
| "np_sub NInf NInf = NaN"

text \<open>The comparison \<open>a < b\<close>; every comparison with \<open>nan\<close> is false.\<close>

fun np_less :: "npfloat \<Rightarrow> npfloat \<Rightarrow> bool" where
  "np_less NaN b = False"
| "np_less a NaN = False"
| "np_less (Fin a) (Fin b) = (a < b)"
| "np_less a PInf = (a \<noteq> PInf)"
| "np_less NInf b = (b \<noteq> NInf)"
| "np_less PInf b = False"
| "np_less a NInf = False"

text \<open>\<open>a <= b\<close>, as \<open>a < b or a == b\<close> (both false on \<open>nan\<close>).\<close>

definition np_le :: "npfloat \<Rightarrow> npfloat \<Rightarrow> bool" where
  "np_le a b = (np_less a b \<or> (a \<noteq> NaN \<and> a = b))"

text \<open>The larger and the smaller of two values, as \<open>np.max\<close> and \<open>np.min\<close> fold them: a \<open>nan\<close> wins.\<close>

definition np_maximum :: "npfloat \<Rightarrow> npfloat \<Rightarrow> npfloat" where
  "np_maximum a b = (if a = NaN \<or> b = NaN then NaN else if np_less a b then b else a)"

definition np_minimum :: "npfloat \<Rightarrow> npfloat \<Rightarrow> npfloat" where
  "np_minimum a b = (if a = NaN \<or> b = NaN then NaN else if np_less b a then b else a)"

text \<open>
  \<open>np.max\<close> and \<open>np.min\<close> of a sequence of float values (the Python list \<open>rms_values\<close>);
  both raise \<open>ValueError\<close> on an empty one.
\<close>

fun np_max_list :: "npfloat list \<Rightarrow> error + npfloat" where
  "np_max_list [] = Inl ValueError"
| "np_max_list (x # xs) = Inr (fold np_maximum xs x)"

fun np_min_list :: "npfloat list \<Rightarrow> error + npfloat" where
  "np_min_list [] = Inl ValueError"
| "np_min_list (x # xs) = Inr (fold np_minimum xs x)"

text \<open>\<open>np.abs\<close> and \<open>np.max\<close> on an array of samples.\<close>

definition np_abs :: "real list \<Rightarrow> real list" where
  "np_abs xs = map abs xs"

fun np_max :: "real list \<Rightarrow> error + real" where
  "np_max [] = Inl ValueError"
| "np_max (x # xs) = Inr (fold max xs x)"

text \<open>
  \<open>np.argmin\<close>: the index of the first occurrence of the least element; \<open>ValueError\<close> on
  an empty array. \<open>argmin_from xs i best bv\<close> scans \<open>xs\<close>, whose first element has index
  \<open>i\<close>, with the least value \<open>bv\<close> seen so far, at index \<open>best\<close>.
\<close>

fun argmin_from :: "real list \<Rightarrow> nat \<Rightarrow> nat \<Rightarrow> real \<Rightarrow> nat" where
  "argmin_from [] i best bv = best"
| "argmin_from (x # xs) i best bv =
     (if x < bv then argmin_from xs (Suc i) i x else argmin_from xs (Suc i) best bv)"

definition np_argmin :: "real list \<Rightarrow> error + nat" where
  "np_argmin xs = (case xs of [] \<Rightarrow> Inl ValueError | x # rest \<Rightarrow> Inr (argmin_from rest 1 0 x))"

text \<open>
  \<open>range(start, stop, step)\<close>: \<open>ValueError\<close> for a zero step; otherwise the values
  \<open>start + k * step\<close> that lie before \<open>stop\<close> in the direction of the step.
\<close>

definition py_range :: "int \<Rightarrow> int \<Rightarrow> int \<Rightarrow> error + int list" where
  "py_range start stop step =
     (if step = 0 then Inl ValueError
      else if 0 < step then
        Inr (map (\<lambda>k. start + int k * step) [0..<nat ((stop - start + step - 1) div step)])
      else
        Inr (map (\<lambda>k. start + int k * step) [0..<nat ((start - stop - step - 1) div (- step))]))"

text \<open>
  \<open>np.fft.fft\<close> (numpy's, not code of this repository) is modelled by the definition of the
  discrete Fourier transform that numpy documents: bin \<open>k\<close> of an array \<open>a\<close> of length
  \<open>n\<close> is the sum over \<open>m\<close> of \<open>a[m] * exp(-2 pi i m k / n)\<close>. On an empty array it raises
  \<open>ValueError\<close> (invalid number of data points).
\<close>

definition dft_bin :: "real list \<Rightarrow> nat \<Rightarrow> complex" where
  "dft_bin a k =
     (\<Sum>m\<leftarrow>[0..<length a].
        complex_of_real (a ! m) * cis (- (2 * pi * real m * real k / real (length a))))"

definition np_fft :: "real list \<Rightarrow> error + complex list" where
  "np_fft a = (if a = [] then Inl ValueError else Inr (map (dft_bin a) [0..<length a]))"

text \<open>
  \<open>np.fft.fftfreq(n, d)\<close>: the bin centres \<open>[0, 1, ..., (n-1)//2, -(n//2), ..., -1] / (d*n)\<close>
  (bin \<open>k\<close> of the second half holds \<open>k - n\<close>). Its one call is reached with \<open>n > 0\<close>
  and \<open>d = 1 / sample_rate > 0\<close>.
\<close>

definition np_fftfreq :: "nat \<Rightarrow> real \<Rightarrow> real list" where
  "np_fftfreq n d =
     map (\<lambda>k. (if k < (n - 1) div 2 + 1 then real k else real k - real n) * (1 / (real n * d)))
       [0..<n]"

text \<open>Sequencing of calls that may raise: the first error ends the computation.\<close>

definition ebind :: "error + 'a \<Rightarrow> ('a \<Rightarrow> error + 'b) \<Rightarrow> error + 'b" where
  "ebind r f = (case r of Inl e \<Rightarrow> Inl e | Inr v \<Rightarrow> f v)"

text \<open>\<open>a[i]\<close> for an index \<open>i \<ge> 0\<close>: \<open>IndexError\<close> beyond the end.\<close>

definition np_get :: "real list \<Rightarrow> nat \<Rightarrow> error + real" where
  "np_get a i = (if i < length a then Inr (a ! i) else Inl IndexError)"

text \<open>Every sample of the buffer is zero.\<close>

primrec all_zero :: "real list \<Rightarrow> bool" where
  "all_zero [] = True"
| "all_zero (x # xs) = (x = 0 \<and> all_zero xs)"

subsection \<open>The analyzer and its configuration\<close>

text \<open>
  \<open>__init__\<close> takes no argument and sets the one attribute, \<open>sample_rate = 44100\<close>.
\<close>

record analyzer =
  sample_rate :: nat

definition AudioQualityAnalyzer_init :: analyzer where
  "AudioQualityAnalyzer_init = \<lparr>sample_rate = 44100\<rparr>"

subsection \<open>\<open>calculate_rms\<close>\<close>

text \<open>\<open>return np.sqrt(np.mean(audio**2))\<close>\<close>

definition calculate_rms :: "real list \<Rightarrow> npfloat" where
  "calculate_rms audio = np_sqrt (np_mean (np_square audio))"

subsection \<open>\<open>calculate_snr\<close>\<close>

text \<open>
  \<^verbatim>\<open>
  signal_power = np.mean(signal_audio**2)
  noise_power = np.mean(noise_audio**2)
  if noise_power == 0:
      return float("inf")
  snr = 10 * np.log10(signal_power / noise_power)
  return snr
  \<close>
  No statement compares the two lengths, and none raises: each mean is taken over its own
  array.
\<close>

definition calculate_snr :: "real list \<Rightarrow> real list \<Rightarrow> npfloat" where
  "calculate_snr signal_audio noise_audio =
     (let signal_power = np_mean (np_square signal_audio);
          noise_power = np_mean (np_square noise_audio)
      in if noise_power = Fin 0 then PInf
         else np_mul (Fin 10) (np_log10 (np_div signal_power noise_power)))"

text \<open>The mean-square power of a buffer, as the specification words it.\<close>

definition mean_square :: "real list \<Rightarrow> real" where
  "mean_square xs = (\<Sum>x\<leftarrow>xs. x\<^sup>2) / real (length xs)"

subsection \<open>\<open>calculate_peak_level\<close>\<close>

text \<open>
  \<^verbatim>\<open>
  peak = np.max(np.abs(audio))
  if peak == 0:
      return -float("inf")
  return 20 * np.log10(peak)
  \<close>
\<close>

definition calculate_peak_level :: "real list \<Rightarrow> error + npfloat" where
  "calculate_peak_level audio =
     ebind (np_max (np_abs audio)) (\<lambda>peak.
       if peak = 0 then Inr NInf
       else Inr (np_mul (Fin 20) (np_log10 (Fin peak))))"

subsection \<open>\<open>calculate_dynamic_range\<close>\<close>

text \<open>
  \<^verbatim>\<open>
  window_size = int(0.1 * self.sample_rate)  # 100ms
  rms_values = []
  for i in range(0, len(audio) - window_size, window_size):
      window = audio[i : i + window_size]
      rms = self.calculate_rms(window)
      if rms > 0:
          rms_values.append(20 * np.log10(rms))
  if len(rms_values) < 2:
      return 0
  return np.max(rms_values) - np.min(rms_values)
  \<close>
  \<open>int\<close> truncates, so \<open>int(0.1 * sample_rate)\<close> of a natural number is its quotient by 10
  (4410 for 44100). \<open>dr_body\<close> is one pass through the loop body, at start index \<open>i\<close>.
\<close>

definition window_size_of :: "'a analyzer_scheme \<Rightarrow> nat" where
  "window_size_of self = sample_rate self div 10"

definition dr_body :: "real list \<Rightarrow> nat \<Rightarrow> int \<Rightarrow> npfloat list \<Rightarrow> npfloat list" where
  "dr_body audio window_size i rms_values =
     (let window = take window_size (drop (nat i) audio);
          rms = calculate_rms window
      in if np_less (Fin 0) rms then rms_values @ [np_mul (Fin 20) (np_log10 rms)]
         else rms_values)"

definition calculate_dynamic_range :: "'a analyzer_scheme \<Rightarrow> real list \<Rightarrow> error + npfloat" where
  "calculate_dynamic_range self audio =
     (let window_size = window_size_of self in
      ebind (py_range 0 (int (length audio) - int window_size) (int window_size)) (\<lambda>starts.
        let rms_values = fold (dr_body audio window_size) starts [] in
        if length rms_values < 2 then Inr (Fin 0)
        else ebind (np_max_list rms_values) (\<lambda>hi.
             ebind (np_min_list rms_values) (\<lambda>lo. Inr (np_sub hi lo)))))"

text \<open>
  The dynamic range in the words of the specification, for comparison with the code: the
  windows are all the complete windows of \<open>round(0.1 * sampleRate)\<close> samples, in order;
  each one with a nonzero RMS gives \<open>20 * log10(rms)\<close>; the result is the largest minus the
  smallest of these values, or 0 when there are fewer than two.
\<close>

definition spec_windows :: "nat \<Rightarrow> real list \<Rightarrow> real list list" where
  "spec_windows w audio = map (\<lambda>k. take w (drop (k * w) audio)) [0..<length audio div w]"

definition spec_rms :: "real list \<Rightarrow> real" where
  "spec_rms window = sqrt ((\<Sum>x\<leftarrow>window. x\<^sup>2) / real (length window))"

definition spec_dynamicRange :: "nat \<Rightarrow> real list \<Rightarrow> real" where
  "spec_dynamicRange sampleRate audio =
     (let w = nat (round (real sampleRate / 10));
          dBvalues = map (\<lambda>r. 20 * log 10 r)
                       (filter (\<lambda>r. r \<noteq> 0) (map spec_rms (spec_windows w audio)))
      in if length dBvalues < 2 then 0 else Max (set dBvalues) - Min (set dBvalues))"

subsection \<open>\<open>calculate_thd_n\<close>\<close>

text \<open>
  \<^verbatim>\<open>
  fft = np.fft.fft(audio)
  freqs = np.fft.fftfreq(len(audio), 1 / self.sample_rate)
  magnitude = np.abs(fft)
  fundamental_idx = np.argmin(np.abs(freqs - fundamental_freq))
  fundamental_power = magnitude[fundamental_idx] ** 2
  harmonic_power = 0
  for harmonic in range(2, 6):
      harmonic_freq = fundamental_freq * harmonic
      if harmonic_freq < self.sample_rate / 2:
          harmonic_idx = np.argmin(np.abs(freqs - harmonic_freq))
          harmonic_power += magnitude[harmonic_idx] ** 2
  total_power = np.sum(magnitude**2)
  noise_and_distortion_power = total_power - fundamental_power
  if fundamental_power == 0:
      return float("inf")
  thd_n = np.sqrt(noise_and_distortion_power / fundamental_power) * 100
  return thd_n
  \<close>
  \<open>thd_n_locals\<close> runs the function down to the assignment of
  \<open>noise_and_distortion_power\<close> and returns its local variables; \<open>calculate_thd_n\<close> is the
  rest. The parameter \<open>fundamental_freq\<close> has the default 440.
\<close>

record thd_locals =
  fundamental_idx :: nat
  fundamental_power :: real
  harmonic_power :: real
  total_power :: real
  noise_and_distortion_power :: real

definition nearest_bin :: "real list \<Rightarrow> real \<Rightarrow> error + nat" where
  "nearest_bin freqs f = np_argmin (np_abs (map (\<lambda>x. x - f) freqs))"

definition harmonic_body ::
  "'a analyzer_scheme \<Rightarrow> real list \<Rightarrow> real list \<Rightarrow> real \<Rightarrow> nat \<Rightarrow> error + real \<Rightarrow> error + real"
where
  "harmonic_body self freqs magnitude fundamental_freq harmonic acc =
     ebind acc (\<lambda>harmonic_power.
       let harmonic_freq = fundamental_freq * real harmonic in
       if harmonic_freq < real (sample_rate self) / 2 then
         ebind (nearest_bin freqs harmonic_freq) (\<lambda>harmonic_idx.
         ebind (np_get magnitude harmonic_idx) (\<lambda>m.
           Inr (harmonic_power + m\<^sup>2)))
       else Inr harmonic_power)"

definition thd_n_locals :: "'a analyzer_scheme \<Rightarrow> real list \<Rightarrow> real \<Rightarrow> error + thd_locals" where
  "thd_n_locals self audio fundamental_freq =
     ebind (np_fft audio) (\<lambda>fft.
       if sample_rate self = 0 then Inl ZeroDivisionError
       else
         let freqs = np_fftfreq (length audio) (1 / real (sample_rate self));
             magnitude = map cmod fft
         in
         ebind (nearest_bin freqs fundamental_freq) (\<lambda>idx.
         ebind (np_get magnitude idx) (\<lambda>m0.
         ebind (fold (harmonic_body self freqs magnitude fundamental_freq) [2..<6] (Inr 0))
           (\<lambda>hp.
             let total = sum_list (np_square magnitude) in
             Inr \<lparr>fundamental_idx = idx, fundamental_power = m0\<^sup>2, harmonic_power = hp,
                  total_power = total, noise_and_distortion_power = total - m0\<^sup>2\<rparr>))))"

definition calculate_thd_n :: "'a analyzer_scheme \<Rightarrow> real list \<Rightarrow> real \<Rightarrow> error + npfloat" where
  "calculate_thd_n self audio fundamental_freq =
     ebind (thd_n_locals self audio fundamental_freq) (\<lambda>L.
       if fundamental_power L = 0 then Inr PInf
       else Inr (np_mul
                   (np_sqrt (np_div (Fin (noise_and_distortion_power L)) (Fin (fundamental_power L))))
                   (Fin 100)))"

text \<open>
  The quantities of the specification: the squared magnitude of bin \<open>k\<close>, the total power
  (the sum of the squared magnitudes over all bins), and the bin frequencies at the
  analyzer's sample rate.
\<close>

definition bin_power :: "real list \<Rightarrow> nat \<Rightarrow> real" where
  "bin_power audio k = (cmod (dft_bin audio k))\<^sup>2"

definition total_bin_power :: "real list \<Rightarrow> real" where
  "total_bin_power audio = (\<Sum>k<length audio. bin_power audio k)"

definition bin_freqs :: "'a analyzer_scheme \<Rightarrow> real list \<Rightarrow> real list" where
  "bin_freqs self audio = np_fftfreq (length audio) (1 / real (sample_rate self))"

subsection \<open>\<open>calculate_correlation\<close>\<close>

text \<open>
  \<^verbatim>\<open>
  min_len = min(len(audio1), len(audio2))
  audio1 = audio1[:min_len]
  audio2 = audio2[:min_len]
  correlation, p_value = pearsonr(audio1, audio2)
  return correlation, p_value
  \<close>
  \<open>pearsonr\<close> is \<open>scipy.stats.pearsonr\<close>, not code of this repository: it is a parameter,
  and its result type \<open>'r\<close> holds the pair it returns or the exception it raises.
\<close>

definition calculate_correlation ::
  "(real list \<Rightarrow> real list \<Rightarrow> 'r) \<Rightarrow> real list \<Rightarrow> real list \<Rightarrow> 'r" where
  "calculate_correlation pearsonr audio1 audio2 =
     (let min_len = min (length audio1) (length audio2);
          audio1' = take min_len audio1;
          audio2' = take min_len audio2
      in pearsonr audio1' audio2')"

text \<open>
  What \<open>scipy.stats.pearsonr\<close> checks before it computes, and the coefficient it computes
  (its p-value is left out): the two arrays must have the same length, and at least two
  elements; a constant array gives \<open>nan\<close>.
\<close>

datatype pearsonr_error = LengthMismatch | TooShort

definition pearson_coefficient :: "real list \<Rightarrow> real list \<Rightarrow> npfloat" where
  "pearson_coefficient x y =
     (let mx = sum_list x / real (length x);
          my = sum_list y / real (length y);
          xm = map (\<lambda>v. v - mx) x;
          ym = map (\<lambda>v. v - my) y;
          d = sqrt (sum_list (np_square xm)) * sqrt (sum_list (np_square ym))
      in if d = 0 then NaN else Fin (sum_list (map (\<lambda>(a, b). a * b) (zip xm ym)) / d))"

definition scipy_pearsonr :: "real list \<Rightarrow> real list \<Rightarrow> pearsonr_error + npfloat" where
  "scipy_pearsonr x y =
     (if length x \<noteq> length y then Inl LengthMismatch
      else if length x < 2 then Inl TooShort
      else Inr (pearson_coefficient x y))"

section \<open>Properties\<close>

subsection \<open>Sums of squares\<close>

lemma all_zero_iff: "all_zero xs \<longleftrightarrow> (\<forall>x\<in>set xs. x = 0)"
  by (induction xs) auto

lemma sum_squares_nonneg: "0 \<le> sum_list (np_square xs)"
  unfolding np_square_def by (induction xs) auto

lemma sum_squares_zero_iff: "sum_list (np_square xs) = 0 \<longleftrightarrow> all_zero xs"
proof (induction xs)
  case Nil
  show ?case by (simp add: np_square_def)
next
  case (Cons x xs)
  have nn: "0 \<le> sum_list (np_square xs)" by (rule sum_squares_nonneg)
  have "x * x + sum_list (np_square xs) = 0 \<longleftrightarrow> x = 0 \<and> sum_list (np_square xs) = 0"
  proof
    assume h: "x * x + sum_list (np_square xs) = 0"
    have "0 \<le> x * x" by simp
    with h nn have "x * x = 0" and "sum_list (np_square xs) = 0" by linarith+
    then show "x = 0 \<and> sum_list (np_square xs) = 0" by simp
  qed simp
  with Cons show ?case by (simp add: np_square_def)
qed

lemma mean_square_Fin:
  "audio \<noteq> [] \<Longrightarrow>
     np_mean (np_square audio) = Fin (sum_list (np_square audio) / real (length audio))"
  by (simp add: np_mean_def np_square_def)

lemma mean_square_nonneg: "0 \<le> sum_list (np_square audio) / real (length audio)"
  by (simp add: sum_squares_nonneg)

lemma mean_square_zero_iff:
  "audio \<noteq> [] \<Longrightarrow> sum_list (np_square audio) / real (length audio) = 0 \<longleftrightarrow> all_zero audio"
  by (simp add: sum_squares_zero_iff)

subsection \<open>The signal-to-noise ratio\<close>

lemma mean_square_eq: "mean_square xs = sum_list (np_square xs) / real (length xs)"
  by (simp add: mean_square_def np_square_def power2_eq_square)

lemma np_mean_square: "audio \<noteq> [] \<Longrightarrow> np_mean (np_square audio) = Fin (mean_square audio)"
  by (simp add: mean_square_eq mean_square_Fin)

lemma mean_square_ge0: "0 \<le> mean_square xs"
  by (simp add: mean_square_eq sum_squares_nonneg)

lemma mean_square_eq0_iff: "audio \<noteq> [] \<Longrightarrow> mean_square audio = 0 \<longleftrightarrow> all_zero audio"
  unfolding mean_square_eq by (rule mean_square_zero_iff)

text \<open>The value of \<open>calculate_snr\<close> on any two buffers, by cases.\<close>

lemma calculate_snr_value:
  "calculate_snr s n =
     (if n = [] then NaN
      else if mean_square n = 0 then PInf
      else if s = [] then NaN
      else if mean_square s = 0 then NInf
      else Fin (10 * log 10 (mean_square s / mean_square n)))"
proof (cases "n = []")
  case True
  then show ?thesis by (simp add: calculate_snr_def np_mean_def np_square_def)
next
  case n: False
  have mn: "np_mean (np_square n) = Fin (mean_square n)" using n by (rule np_mean_square)
  show ?thesis
  proof (cases "mean_square n = 0")
    case True
    then show ?thesis using n mn by (simp add: calculate_snr_def)
  next
    case pn0: False
    show ?thesis
    proof (cases "s = []")
      case True
      then show ?thesis using n mn pn0
        by (simp add: calculate_snr_def np_mean_def np_square_def)
    next
      case s: False
      have ms: "np_mean (np_square s) = Fin (mean_square s)" using s by (rule np_mean_square)
      have pn_pos: "0 < mean_square n"
        using pn0 mean_square_ge0 [of n] by linarith
      show ?thesis
      proof (cases "mean_square s = 0")
        case True
        then show ?thesis using n s mn ms pn0
          by (simp add: calculate_snr_def Let_def)
      next
        case ps0: False
        then have "0 < mean_square s"
          using mean_square_ge0 [of s] by linarith
        then have q: "0 < mean_square s / mean_square n" using pn_pos by (rule divide_pos_pos)
        have "calculate_snr s n = np_mul (Fin 10) (np_log10 (Fin (mean_square s / mean_square n)))"
          using mn ms pn0 by (simp add: calculate_snr_def Let_def)
        also have "\<dots> = Fin (10 * log 10 (mean_square s / mean_square n))"
          using q ps0 pn0 by simp
        finally show ?thesis using n s ps0 pn0 by simp
      qed
    qed
  qed
qed

text \<open>
  C1, as the claim states it, fails: on a signal of two samples and a noise of one sample
  \<open>calculate_snr\<close> raises nothing and returns 0 dB.
\<close>

theorem calculate_snr_mismatch_counterexample:
  "length [1, 1 :: real] \<noteq> length [1 :: real] \<and> calculate_snr [1, 1] [1] = Fin 0"
  by (simp add: calculate_snr_def np_mean_def np_square_def)

text \<open>
  C1, amended: on every pair of buffers of unequal length \<open>calculate_snr\<close> makes no length
  check and raises no error; it returns the ratio of the two mean-square powers, each taken
  over its own buffer, in dB: \<open>+inf\<close> when the noise power is zero, \<open>-inf\<close> when only the
  signal power is zero, \<open>nan\<close> when one of the buffers is empty.
\<close>

theorem calculate_snr_unequal_length:
  assumes "length signal_audio \<noteq> length noise_audio"
  shows "calculate_snr signal_audio noise_audio =
     (if noise_audio = [] then NaN
      else if mean_square noise_audio = 0 then PInf
      else if signal_audio = [] then NaN
      else if mean_square signal_audio = 0 then NInf
      else Fin (10 * log 10 (mean_square signal_audio / mean_square noise_audio)))"
  by (rule calculate_snr_value)

theorem calculate_snr_unequal_length_witness:
  "length [2, 2, 2 :: real] \<noteq> length [1 :: real]
   \<and> calculate_snr [2, 2, 2] [1] = Fin (10 * log 10 4)"
  using calculate_snr_unequal_length [of "[2, 2, 2]" "[1]"] by (simp add: mean_square_def)

text \<open>
  C4: on every pair of buffers of equal length \<open>calculate_snr\<close> returns
  \<open>10 * log10 (signalPower / noisePower)\<close>, each power the mean of the squared samples, and
  \<open>+inf\<close> when the noise power is exactly zero. The formula is read as numpy evaluates it:
  a zero signal power gives \<open>-inf\<close>, and two empty buffers, whose means are \<open>nan\<close>, give
  \<open>nan\<close>.
\<close>

theorem calculate_snr_equal_length:
  assumes "length signal_audio = length noise_audio"
  shows "calculate_snr signal_audio noise_audio =
     (if noise_audio = [] then NaN
      else if mean_square noise_audio = 0 then PInf
      else if mean_square signal_audio = 0 then NInf
      else Fin (10 * log 10 (mean_square signal_audio / mean_square noise_audio)))"
proof -
  have "signal_audio = [] \<longleftrightarrow> noise_audio = []" using assms by auto
  then show ?thesis by (simp add: calculate_snr_value)
qed

theorem calculate_snr_equal_length_witness:
  "length [2, 2 :: real] = length [1, 1 :: real]
   \<and> calculate_snr [2, 2] [1, 1] = Fin (10 * log 10 4)
   \<and> calculate_snr [2, 2] [0, 0] = PInf"
  using calculate_snr_equal_length [of "[2, 2]" "[1, 1]"]
        calculate_snr_equal_length [of "[2, 2]" "[0, 0]"]
  by (simp add: mean_square_def)

subsection \<open>The root mean square\<close>

text \<open>
  C7, as the claim states it, fails on the empty buffer: \<open>np.mean\<close> of an empty array is
  \<open>nan\<close>, so the result is \<open>nan\<close>, which is neither \<open>\<ge> 0\<close> nor equal to 0, although every
  sample of the empty buffer is zero.
\<close>

theorem calculate_rms_empty_counterexample:
  "calculate_rms [] = NaN \<and> \<not> np_le (Fin 0) (calculate_rms []) \<and> all_zero []"
  by (simp add: calculate_rms_def np_mean_def np_square_def np_le_def)

text \<open>
  C7, amended: for every non-empty buffer, \<open>calculate_rms\<close> is the square root of the mean
  of the squared samples, a number \<open>\<ge> 0\<close>; it is 0 exactly when the mean of the squared
  samples, as computed, is 0, and that is so whenever every sample is 0. (That only zero
  samples give 0 is left out: on the machine the square of a small nonzero sample
  underflows to 0.)
\<close>

theorem calculate_rms_nonempty:
  assumes "audio \<noteq> []"
  shows "calculate_rms audio
           = Fin (sqrt ((\<Sum>x\<leftarrow>audio. x\<^sup>2) / real (length audio)))
       \<and> np_le (Fin 0) (calculate_rms audio)
       \<and> (calculate_rms audio = Fin 0 \<longleftrightarrow> np_mean (np_square audio) = Fin 0)
       \<and> (all_zero audio \<longrightarrow> calculate_rms audio = Fin 0)"
proof -
  let ?m = "sum_list (np_square audio) / real (length audio)"
  have sq: "(\<Sum>x\<leftarrow>audio. x\<^sup>2) = sum_list (np_square audio)"
    by (simp add: np_square_def power2_eq_square)
  have mean: "np_mean (np_square audio) = Fin ?m"
    using assms by (rule mean_square_Fin)
  have nn: "0 \<le> ?m" by (rule mean_square_nonneg)
  then have r: "calculate_rms audio = Fin (sqrt ?m)"
    by (simp add: calculate_rms_def mean)
  have c1: "calculate_rms audio = Fin (sqrt ((\<Sum>x\<leftarrow>audio. x\<^sup>2) / real (length audio)))"
    unfolding r sq by (rule refl)
  have c2: "np_le (Fin 0) (calculate_rms audio)"
    unfolding r using nn by (auto simp: np_le_def)
  have c3: "calculate_rms audio = Fin 0 \<longleftrightarrow> np_mean (np_square audio) = Fin 0"
    unfolding r mean by simp
  have c4: "all_zero audio \<longrightarrow> calculate_rms audio = Fin 0"
    unfolding r using mean_square_zero_iff [OF assms] by simp
  show ?thesis using c1 c2 c3 c4 by blast
qed

theorem calculate_rms_nonempty_witness:
  "[3, 4] \<noteq> ([]::real list)
   \<and> calculate_rms [3, 4] = Fin (sqrt (25 / 2))
   \<and> np_le (Fin 0) (calculate_rms [3, 4])
   \<and> [0, 0] \<noteq> ([]::real list)
   \<and> all_zero [0, 0]
   \<and> calculate_rms [0, 0] = Fin 0"
  using calculate_rms_nonempty [of "[3, 4]"] calculate_rms_nonempty [of "[0, 0]"]
  by (simp add: np_le_def)

subsection \<open>The peak level\<close>

lemma np_max_abs:
  assumes "audio \<noteq> []"
  shows "np_max (np_abs audio) = Inr (Max (abs ` set audio))"
proof -
  obtain a as where c: "audio = a # as" using assms by (cases audio) auto
  have "Max (set (\<bar>a\<bar> # map abs as)) = fold max (map abs as) \<bar>a\<bar>"
    by (rule Max.set_eq_fold)
  moreover have "set (\<bar>a\<bar> # map abs as) = abs ` set audio"
    unfolding c by simp
  moreover have "np_max (np_abs audio) = Inr (fold max (map abs as) \<bar>a\<bar>)"
    unfolding c np_abs_def by simp
  ultimately show ?thesis by (simp only:)
qed

lemma peak_zero_iff:
  assumes "audio \<noteq> []"
  shows "Max (abs ` set audio) = 0 \<longleftrightarrow> all_zero audio"
proof
  assume m: "Max (abs ` set audio) = 0"
  have "x = 0" if "x \<in> set audio" for x
  proof -
    have "\<bar>x\<bar> \<le> Max (abs ` set audio)" using that by simp
    then have "\<bar>x\<bar> \<le> 0" unfolding m .
    then show ?thesis by simp
  qed
  then show "all_zero audio" unfolding all_zero_iff by blast
next
  assume "all_zero audio"
  then have z: "x = 0" if "x \<in> set audio" for x
    using that unfolding all_zero_iff by blast
  obtain a where a: "a \<in> set audio" using assms by (cases audio) auto
  show "Max (abs ` set audio) = 0"
  proof (rule Max_eqI)
    show "finite (abs ` set audio)" by simp
    show "y \<le> 0" if yin: "y \<in> abs ` set audio" for y
    proof -
      obtain x where "x \<in> set audio" and "y = \<bar>x\<bar>" using yin by blast
      then show ?thesis using z by simp
    qed
    have "\<bar>a\<bar> \<in> abs ` set audio" using a by (rule imageI)
    then show "0 \<in> abs ` set audio" using z [OF a] by simp
  qed
qed

lemma peak_nonneg:
  assumes "audio \<noteq> []"
  shows "0 \<le> Max (abs ` set (audio :: real list))"
proof -
  obtain a where "a \<in> set audio" using assms by (cases audio) auto
  then have "\<bar>a\<bar> \<le> Max (abs ` set audio)" by simp
  then show ?thesis by linarith
qed

lemma calculate_peak_level_value:
  assumes "audio \<noteq> []"
  shows "calculate_peak_level audio =
           Inr (if all_zero audio then NInf else Fin (20 * log 10 (Max (abs ` set audio))))"
proof -
  let ?p = "Max (abs ` set audio)"
  have nn: "0 \<le> ?p" using assms by (rule peak_nonneg)
  have z: "?p = 0 \<longleftrightarrow> all_zero audio" using assms by (rule peak_zero_iff)
  have "calculate_peak_level audio =
          (if ?p = 0 then Inr NInf else Inr (np_mul (Fin 20) (np_log10 (Fin ?p))))"
    using np_max_abs [OF assms] by (simp add: calculate_peak_level_def ebind_def)
  also have "\<dots> = Inr (if all_zero audio then NInf else Fin (20 * log 10 ?p))"
  proof (cases "?p = 0")
    case True
    then show ?thesis using z by simp
  next
    case False
    then have "0 < ?p" using nn by linarith
    then show ?thesis using False z by simp
  qed
  finally show ?thesis .
qed

text \<open>
  C6, as the claim states it, fails on the empty buffer: \<open>np.max\<close> of an empty array raises
  \<open>ValueError\<close>, so no \<open>-inf\<close> is returned although every sample of the empty buffer is zero.
\<close>

theorem calculate_peak_level_empty_counterexample:
  "calculate_peak_level [] = Inl ValueError \<and> all_zero []"
  by (simp add: calculate_peak_level_def ebind_def np_abs_def)

text \<open>
  C6, amended: for every non-empty buffer, \<open>calculate_peak_level\<close> returns \<open>-inf\<close> if and
  only if every sample is zero, returns \<open>20 * log10\<close> of the largest absolute sample value
  otherwise, and its result is at most 0 whenever every sample lies in \<open>[-1, 1]\<close>.
\<close>

theorem calculate_peak_level_nonempty:
  assumes "audio \<noteq> []"
  shows "(calculate_peak_level audio = Inr NInf \<longleftrightarrow> all_zero audio)
       \<and> (\<not> all_zero audio \<longrightarrow>
            calculate_peak_level audio = Inr (Fin (20 * log 10 (Max (abs ` set audio)))))
       \<and> ((\<forall>x\<in>set audio. - 1 \<le> x \<and> x \<le> 1) \<longrightarrow>
            (\<exists>r. calculate_peak_level audio = Inr r \<and> np_le r (Fin 0)))"
proof -
  let ?p = "Max (abs ` set audio)"
  let ?r = "if all_zero audio then NInf else Fin (20 * log 10 ?p)"
  have v: "calculate_peak_level audio = Inr ?r"
    using assms by (rule calculate_peak_level_value)
  have c1: "calculate_peak_level audio = Inr NInf \<longleftrightarrow> all_zero audio"
    unfolding v by simp
  have c2: "\<not> all_zero audio \<longrightarrow> calculate_peak_level audio = Inr (Fin (20 * log 10 ?p))"
    unfolding v by simp
  have le: "np_le ?r (Fin 0)" if b: "\<forall>x\<in>set audio. - 1 \<le> x \<and> x \<le> 1"
  proof (cases "all_zero audio")
    case True
    then show ?thesis by (simp add: np_le_def)
  next
    case False
    then have "?p \<noteq> 0" using peak_zero_iff [OF assms] by simp
    then have pos: "0 < ?p" using peak_nonneg [OF assms] by linarith
    have "\<forall>y\<in>abs ` set audio. y \<le> 1" using b by (auto simp: abs_le_iff)
    then have "?p \<le> 1" using assms by simp
    then have "log 10 ?p \<le> 0" using pos by simp
    then show ?thesis using False by (auto simp: np_le_def)
  qed
  have c3: "(\<forall>x\<in>set audio. - 1 \<le> x \<and> x \<le> 1) \<longrightarrow>
            (\<exists>r. calculate_peak_level audio = Inr r \<and> np_le r (Fin 0))"
    using v le by blast
  show ?thesis using c1 c2 c3 by blast
qed

theorem calculate_peak_level_nonempty_witness:
  "[1 / 2, - 1] \<noteq> ([] :: real list)
   \<and> \<not> all_zero [1 / 2, - 1]
   \<and> - 1 \<le> (1 / 2 :: real) \<and> (1 / 2 :: real) \<le> 1 \<and> - 1 \<le> (- 1 :: real) \<and> (- 1 :: real) \<le> 1
   \<and> calculate_peak_level [1 / 2, - 1] = Inr (Fin 0)
   \<and> np_le (Fin 0) (Fin 0)"
  using calculate_peak_level_nonempty [of "[1 / 2, - 1]"]
  by (simp add: np_le_def)

subsection \<open>The dynamic range\<close>

lemma py_range_pos:
  "0 < step \<Longrightarrow>
     py_range start stop step =
       Inr (map (\<lambda>k. start + int k * step) [0..<nat ((stop - start + step - 1) div step)])"
  by (simp add: py_range_def)

lemma length_dr_body: "length (dr_body audio w i acc) \<le> Suc (length acc)"
  by (simp add: dr_body_def Let_def)

lemma length_fold_dr_body:
  "length (fold (dr_body audio w) starts acc) \<le> length acc + length starts"
proof (induction starts arbitrary: acc)
  case Nil
  show ?case by simp
next
  case (Cons i starts)
  have "length (fold (dr_body audio w) starts (dr_body audio w i acc))
          \<le> length (dr_body audio w i acc) + length starts"
    by (rule Cons.IH)
  also have "\<dots> \<le> Suc (length acc) + length starts"
    using length_dr_body [of audio w i acc] by simp
  finally show ?case by simp
qed

lemma window_count_short:
  assumes "0 < w" and "n \<le> 2 * w"
  shows "nat ((int n - int w - 0 + int w - 1) div int w) \<le> 1"
proof -
  have "(int n - 1) div int w \<le> (2 * int w - 1) div int w"
    using assms by (intro zdiv_mono1) auto
  also have "(2 * int w - 1) div int w = 1"
    by (rule int_div_pos_eq [where r = "int w - 1"]) (use assms in auto)
  finally show ?thesis by simp
qed

lemma loop_count_short:
  assumes "0 < w" and "n \<le> 2 * w"
  shows "\<exists>starts. py_range 0 (int n - int w) (int w) = Inr starts \<and> length starts \<le> 1"
  using assms window_count_short [OF assms] by (simp add: py_range_pos)

lemma dynamic_range_short:
  assumes "0 < window_size_of self" and "length audio \<le> 2 * window_size_of self"
  shows "calculate_dynamic_range self audio = Inr (Fin 0)"
proof -
  let ?w = "window_size_of self"
  let ?c = "nat ((int (length audio) - int ?w - 0 + int ?w - 1) div int ?w)"
  let ?starts = "map (\<lambda>k. 0 + int k * int ?w) [0..<?c]"
  have r: "py_range 0 (int (length audio) - int ?w) (int ?w) = Inr ?starts"
    using assms(1) by (simp add: py_range_pos)
  have "length (fold (dr_body audio ?w) ?starts []) \<le> length ([]::npfloat list) + length ?starts"
    by (rule length_fold_dr_body)
  also have "\<dots> = ?c" by simp
  also have "\<dots> \<le> 1" using assms by (rule window_count_short)
  finally have "length (fold (dr_body audio ?w) ?starts []) < 2" by simp
  then show ?thesis
    unfolding calculate_dynamic_range_def Let_def r ebind_def by simp
qed

lemma spec_rms_replicate: "0 < n \<Longrightarrow> spec_rms (replicate n c) = \<bar>c\<bar>"
  by (simp add: spec_rms_def sum_list_replicate)

lemma spec_window_size: "nat (round (real 44100 / 10)) = 4410"
  by simp

lemma spec_windows_two:
  "spec_windows 4410 (replicate 4410 a @ replicate 4410 b) = [replicate 4410 a, replicate 4410 b]"
proof -
  have "[0..<2] = [0, Suc 0]" by (simp add: upt_rec)
  then show ?thesis by (simp add: spec_windows_def)
qed

lemma spec_dynamicRange_example:
  "spec_dynamicRange 44100 (replicate 4410 1 @ replicate 4410 (1 / 10)) = 20"
  unfolding spec_dynamicRange_def spec_window_size Let_def spec_windows_two
  by (simp add: spec_rms_replicate log_divide)

text \<open>
  C2: the claim says that only an incomplete trailing window is discarded. The loop runs
  over \<open>range(0, len(audio) - window_size, window_size)\<close>, whose stop excludes the start
  index \<open>len(audio) - window_size\<close>: when the length is a multiple of the window size the
  last complete window is left out as well. On a buffer of two complete windows at the
  default rate, one at level 1 and one at level 0.1, the code sees one window and returns 0,
  where the claim's computation gives 20 dB.
\<close>

theorem dynamic_range_drops_last_window:
  "calculate_dynamic_range AudioQualityAnalyzer_init (replicate 4410 1 @ replicate 4410 (1 / 10))
     = Inr (Fin 0)
   \<and> spec_dynamicRange 44100 (replicate 4410 1 @ replicate 4410 (1 / 10)) = 20"
proof -
  have "calculate_dynamic_range AudioQualityAnalyzer_init
          (replicate 4410 1 @ replicate 4410 (1 / 10)) = Inr (Fin 0)"
    by (rule dynamic_range_short) (simp_all add: window_size_of_def AudioQualityAnalyzer_init_def)
  then show ?thesis using spec_dynamicRange_example by simp
qed

text \<open>
  C9: at a positive window size (4410 samples at the default rate), on every buffer of at
  most two windows the loop body runs at most once, and \<open>calculate_dynamic_range\<close> returns 0.
\<close>

theorem dynamic_range_short_buffer:
  assumes "0 < window_size_of self" and "length audio \<le> 2 * window_size_of self"
  shows "(\<exists>starts. py_range 0 (int (length audio) - int (window_size_of self))
                     (int (window_size_of self)) = Inr starts
                  \<and> length starts \<le> 1)
       \<and> calculate_dynamic_range self audio = Inr (Fin 0)"
  using assms loop_count_short [OF assms] dynamic_range_short [OF assms] by simp

theorem dynamic_range_short_buffer_witness:
  "0 < window_size_of AudioQualityAnalyzer_init
   \<and> length (replicate 8820 (1 / 2 :: real)) \<le> 2 * window_size_of AudioQualityAnalyzer_init
   \<and> window_size_of AudioQualityAnalyzer_init = 4410
   \<and> calculate_dynamic_range AudioQualityAnalyzer_init (replicate 8820 (1 / 2)) = Inr (Fin 0)"
  using dynamic_range_short_buffer [of AudioQualityAnalyzer_init "replicate 8820 (1 / 2)"]
  by (simp add: window_size_of_def AudioQualityAnalyzer_init_def)

subsection \<open>Total harmonic distortion plus noise\<close>

lemma argmin_from_props:
  assumes "length pre = i" and "best < i" and "bv = (pre @ xs) ! best"
    and "\<forall>j<i. bv \<le> (pre @ xs) ! j"
  shows "argmin_from xs i best bv < length (pre @ xs)
       \<and> (\<forall>j<length (pre @ xs). (pre @ xs) ! (argmin_from xs i best bv) \<le> (pre @ xs) ! j)"
  using assms
proof (induction xs arbitrary: pre i best bv)
  case Nil
  then show ?case by simp
next
  case (Cons x xs)
  let ?pre = "pre @ [x]"
  have eq: "pre @ x # xs = ?pre @ xs" by simp
  have len: "length ?pre = Suc i" using Cons.prems(1) by simp
  have xi': "(pre @ x # xs) ! i = x" unfolding Cons.prems(1) [symmetric] by simp
  have xi: "(?pre @ xs) ! i = x" using xi' by simp
  show ?case
  proof (cases "x < bv")
    case True
    have b: "\<forall>j<Suc i. x \<le> (?pre @ xs) ! j"
    proof (intro allI impI)
      fix j assume "j < Suc i"
      then consider "j < i" | "j = i" by linarith
      then show "x \<le> (?pre @ xs) ! j"
      proof cases
        case 1
        then have "bv \<le> (?pre @ xs) ! j" using Cons.prems(4) by simp
        then show ?thesis using True by linarith
      next
        case 2
        then show ?thesis using xi by simp
      qed
    qed
    have "argmin_from xs (Suc i) i x < length (?pre @ xs)
        \<and> (\<forall>j<length (?pre @ xs). (?pre @ xs) ! (argmin_from xs (Suc i) i x) \<le> (?pre @ xs) ! j)"
      by (rule Cons.IH [OF len _ _ b]) (simp_all add: xi')
    then show ?thesis using True unfolding eq by simp
  next
    case False
    have b: "\<forall>j<Suc i. bv \<le> (?pre @ xs) ! j"
    proof (intro allI impI)
      fix j assume "j < Suc i"
      then consider "j < i" | "j = i" by linarith
      then show "bv \<le> (?pre @ xs) ! j"
      proof cases
        case 1
        then show ?thesis using Cons.prems(4) by simp
      next
        case 2
        then show ?thesis using xi False by simp
      qed
    qed
    have bst: "bv = (?pre @ xs) ! best" using Cons.prems(3) by simp
    have "argmin_from xs (Suc i) best bv < length (?pre @ xs)
        \<and> (\<forall>j<length (?pre @ xs). (?pre @ xs) ! (argmin_from xs (Suc i) best bv) \<le> (?pre @ xs) ! j)"
      by (rule Cons.IH [OF len _ bst b]) (use Cons.prems(2) in simp)
    then show ?thesis using False unfolding eq by simp
  qed
qed

lemma np_argmin_props:
  assumes "xs \<noteq> []"
  shows "\<exists>i. np_argmin xs = Inr i \<and> i < length xs \<and> (\<forall>j<length xs. xs ! i \<le> xs ! j)"
proof -
  obtain x rest where c: "xs = x # rest" using assms by (cases xs) auto
  have "argmin_from rest 1 0 x < length ([x] @ rest)
      \<and> (\<forall>j<length ([x] @ rest). ([x] @ rest) ! (argmin_from rest 1 0 x) \<le> ([x] @ rest) ! j)"
    by (rule argmin_from_props) simp_all
  then show ?thesis unfolding c np_argmin_def by simp
qed

lemma nearest_bin_props:
  assumes "freqs \<noteq> []"
  shows "\<exists>i. nearest_bin freqs f = Inr i \<and> i < length freqs
           \<and> (\<forall>j<length freqs. \<bar>freqs ! i - f\<bar> \<le> \<bar>freqs ! j - f\<bar>)"
proof -
  let ?d = "np_abs (map (\<lambda>x. x - f) freqs)"
  have ne: "?d \<noteq> []" using assms by (simp add: np_abs_def)
  have len: "length ?d = length freqs" by (simp add: np_abs_def)
  have nth: "?d ! j = \<bar>freqs ! j - f\<bar>" if "j < length freqs" for j
    using that by (simp add: np_abs_def)
  obtain i where i: "np_argmin ?d = Inr i" "i < length ?d" "\<forall>j<length ?d. ?d ! i \<le> ?d ! j"
    using np_argmin_props [OF ne] by blast
  have "\<forall>j<length freqs. \<bar>freqs ! i - f\<bar> \<le> \<bar>freqs ! j - f\<bar>"
  proof (intro allI impI)
    fix j assume j: "j < length freqs"
    then have "?d ! i \<le> ?d ! j" using i(3) len by simp
    then show "\<bar>freqs ! i - f\<bar> \<le> \<bar>freqs ! j - f\<bar>"
      using nth [OF j] nth [of i] i(2) len by simp
  qed
  then show ?thesis using i(1,2) len by (simp add: nearest_bin_def)
qed

lemma ebind_Inr: "ebind (Inr v) f = f v"
  by (simp add: ebind_def)

lemma harmonic_body_Inr:
  assumes "freqs \<noteq> []" and "length magnitude = length freqs"
  shows "\<exists>hp'. harmonic_body self freqs magnitude f0 h (Inr hp) = Inr hp'"
proof (cases "f0 * real h < real (sample_rate self) / 2")
  case True
  obtain i where i: "nearest_bin freqs (f0 * real h) = Inr i" "i < length freqs"
    using nearest_bin_props [OF assms(1)] by blast
  then have "np_get magnitude i = Inr (magnitude ! i)" using assms(2) by (simp add: np_get_def)
  then show ?thesis using True i(1) by (simp add: harmonic_body_def ebind_def)
next
  case False
  then show ?thesis by (simp add: harmonic_body_def ebind_def)
qed

lemma harmonic_fold_Inr:
  assumes "freqs \<noteq> []" and "length magnitude = length freqs"
  shows "\<exists>hp'. fold (harmonic_body self freqs magnitude f0) hs (Inr hp) = Inr hp'"
proof (induction hs arbitrary: hp)
  case Nil
  show ?case by simp
next
  case (Cons h hs)
  obtain hp1 where "harmonic_body self freqs magnitude f0 h (Inr hp) = Inr hp1"
    using harmonic_body_Inr [OF assms] by blast
  then show ?case using Cons.IH [of hp1] by simp
qed

lemma sum_squares_magnitude:
  "sum_list (np_square (map cmod (map (dft_bin audio) [0..<length audio]))) = total_bin_power audio"
proof -
  have "sum_list (np_square (map cmod (map (dft_bin audio) [0..<length audio])))
          = sum_list (map (bin_power audio) [0..<length audio])"
    unfolding np_square_def bin_power_def power2_eq_square by (simp add: comp_def)
  also have "\<dots> = sum (bin_power audio) (set [0..<length audio])"
    by (rule interv_sum_list_conv_sum_set_nat)
  also have "\<dots> = total_bin_power audio"
    by (simp add: total_bin_power_def atLeast0LessThan)
  finally show ?thesis .
qed

lemma thd_n_locals_value:
  assumes "audio \<noteq> []" and "0 < sample_rate self"
  shows "\<exists>idx hp. idx < length audio
           \<and> (\<forall>j<length audio. \<bar>bin_freqs self audio ! idx - f0\<bar> \<le> \<bar>bin_freqs self audio ! j - f0\<bar>)
           \<and> nearest_bin (bin_freqs self audio) f0 = Inr idx
           \<and> thd_n_locals self audio f0 =
               Inr \<lparr>fundamental_idx = idx, fundamental_power = bin_power audio idx,
                    harmonic_power = hp, total_power = total_bin_power audio,
                    noise_and_distortion_power = total_bin_power audio - bin_power audio idx\<rparr>"
proof -
  let ?freqs = "bin_freqs self audio"
  let ?fft = "map (dft_bin audio) [0..<length audio]"
  let ?mag = "map cmod ?fft"
  have fft: "np_fft audio = Inr ?fft" using assms(1) by (simp add: np_fft_def)
  have lf: "length ?freqs = length audio" by (simp add: bin_freqs_def np_fftfreq_def)
  have fne: "?freqs \<noteq> []" using assms(1) lf by (metis length_0_conv)
  have lm: "length ?mag = length ?freqs" using lf by simp
  obtain idx where idx: "nearest_bin ?freqs f0 = Inr idx" "idx < length ?freqs"
    "\<forall>j<length ?freqs. \<bar>?freqs ! idx - f0\<bar> \<le> \<bar>?freqs ! j - f0\<bar>"
    using nearest_bin_props [OF fne] by blast
  have idx_lt: "idx < length audio" using idx(2) lf by simp
  have sr: "(sample_rate self = 0) = False" using assms(2) by simp
  have get: "np_get ?mag idx = Inr (cmod (dft_bin audio idx))"
    using idx_lt by (simp add: np_get_def)
  obtain hp where hp: "fold (harmonic_body self ?freqs ?mag f0) [2..<6] (Inr 0) = Inr hp"
    using harmonic_fold_Inr [OF fne lm] by blast
  have "thd_n_locals self audio f0 =
          Inr \<lparr>fundamental_idx = idx, fundamental_power = bin_power audio idx,
               harmonic_power = hp, total_power = total_bin_power audio,
               noise_and_distortion_power = total_bin_power audio - bin_power audio idx\<rparr>"
    unfolding thd_n_locals_def fft ebind_Inr Let_def sr if_False bin_freqs_def [symmetric]
      idx(1) get hp sum_squares_magnitude bin_power_def
    by (rule refl)
  then show ?thesis using idx_lt idx(1,3) lf by auto
qed

lemma thd_n_locals_nonempty:
  assumes "thd_n_locals self audio f0 = Inr L"
  shows "audio \<noteq> [] \<and> 0 < sample_rate self"
proof -
  have "audio \<noteq> []"
  proof
    assume "audio = []"
    then have "thd_n_locals self audio f0 = Inl ValueError"
      by (simp add: thd_n_locals_def np_fft_def ebind_def)
    then show False using assms by simp
  qed
  moreover have "0 < sample_rate self"
  proof (rule ccontr)
    assume "\<not> 0 < sample_rate self"
    then have "thd_n_locals self audio f0 = Inl ZeroDivisionError"
      using \<open>audio \<noteq> []\<close> by (simp add: thd_n_locals_def np_fft_def ebind_def)
    then show False using assms by simp
  qed
  ultimately show ?thesis by simp
qed

lemma bin_power_nonneg: "0 \<le> bin_power audio k"
  by (simp add: bin_power_def)

lemma bin_power_le_total: "idx < length audio \<Longrightarrow> bin_power audio idx \<le> total_bin_power audio"
  unfolding total_bin_power_def by (rule member_le_sum) (simp_all add: bin_power_nonneg)

lemma calculate_thd_n_of_locals:
  assumes "thd_n_locals self audio f0 = Inr L"
  shows "calculate_thd_n self audio f0 =
           Inr (if fundamental_power L = 0 then PInf
                else np_mul (np_sqrt (np_div (Fin (noise_and_distortion_power L))
                                             (Fin (fundamental_power L)))) (Fin 100))"
  unfolding calculate_thd_n_def assms ebind_Inr by simp

lemma thd_ratio_value:
  assumes "0 \<le> nd" and "0 \<le> fp" and "fp \<noteq> 0"
  shows "np_mul (np_sqrt (np_div (Fin nd) (Fin fp))) (Fin 100) = Fin (sqrt (nd / fp) * 100)"
proof -
  have "0 \<le> nd / fp" using assms by simp
  then have "\<not> nd / fp < 0" by linarith
  then show ?thesis using assms(3) by simp
qed

lemma sample_rate_init: "sample_rate AudioQualityAnalyzer_init = 44100"
  by (simp add: AudioQualityAnalyzer_init_def)

lemma dft_bin_example: "dft_bin [1, 0] 0 = 1" "dft_bin [1, 0] (Suc 0) = 1"
  by (simp_all add: dft_bin_def upt_rec)

lemma bin_freqs_example: "bin_freqs AudioQualityAnalyzer_init [1, 0] = [0, - 22050]"
  by (simp add: bin_freqs_def np_fftfreq_def AudioQualityAnalyzer_init_def upt_rec)

lemma nearest_bin_example:
  "0 \<le> f \<Longrightarrow> nearest_bin (bin_freqs AudioQualityAnalyzer_init [1, 0]) f = Inr 0"
  by (simp add: bin_freqs_example nearest_bin_def np_abs_def np_argmin_def)

lemma bin_power_example: "bin_power [1, 0] 0 = 1" "total_bin_power [1, 0] = 2"
  by (simp_all add: bin_power_def total_bin_power_def dft_bin_example lessThan_Suc
        numeral_2_eq_2)

lemma thd_n_locals_example:
  "thd_n_locals AudioQualityAnalyzer_init [1, 0] 440 =
     Inr \<lparr>fundamental_idx = 0, fundamental_power = 1, harmonic_power = 4, total_power = 2,
          noise_and_distortion_power = 1\<rparr>"
proof -
  have sr: "sample_rate AudioQualityAnalyzer_init = 44100"
    by (simp add: AudioQualityAnalyzer_init_def)
  have fft: "np_fft [1, 0] = Inr [1, 1]"
    by (simp add: np_fft_def upt_rec dft_bin_example)
  have fr: "np_fftfreq (length [1, 0 :: real]) (1 / real 44100) = [0, - 22050]"
    using bin_freqs_example by (simp add: bin_freqs_def sr)
  have nb: "nearest_bin [0, - 22050] f = Inr 0" if "0 \<le> f" for f
    using nearest_bin_example [OF that] by (simp add: bin_freqs_example)
  have hb: "harmonic_body AudioQualityAnalyzer_init [0, - 22050] [1, 1] 440 h (Inr a)
              = Inr (a + 1)" if "h \<le> 5" for h a
  proof -
    have "440 * real h < real (sample_rate AudioQualityAnalyzer_init) / 2"
      using that by (simp add: sr)
    then show ?thesis
      by (simp add: harmonic_body_def ebind_Inr nb np_get_def)
  qed
  have hp: "fold (harmonic_body AudioQualityAnalyzer_init [0, - 22050] [1, 1] 440) [2..<6] (Inr 0)
              = Inr 4"
    by (simp add: upt_rec hb)
  show ?thesis
    unfolding thd_n_locals_def fft ebind_Inr Let_def sr fr
    by (simp add: nb ebind_Inr np_get_def hb np_square_def)
qed

text \<open>
  C3, as the claim states it, fails on the empty buffer: \<open>np.fft.fft\<close> raises \<open>ValueError\<close>
  there, so nothing is returned.
\<close>

theorem calculate_thd_n_empty_counterexample:
  "calculate_thd_n AudioQualityAnalyzer_init [] 440 = Inl ValueError"
  by (simp add: calculate_thd_n_def thd_n_locals_def np_fft_def ebind_def)

text \<open>
  C3, amended: for every non-empty buffer (at a positive sample rate), \<open>calculate_thd_n\<close>
  takes the full-length DFT, locates the bin \<open>idx\<close> whose frequency is nearest to the
  fundamental, and returns \<open>sqrt ((total - fundamental) / fundamental) * 100\<close>, where the
  fundamental power is the squared magnitude of bin \<open>idx\<close> and the total power the sum of
  the squared magnitudes of all bins, or \<open>+inf\<close> when the fundamental power is zero. The
  harmonic power does not enter the result.
\<close>

theorem calculate_thd_n_nonempty:
  assumes "audio \<noteq> []" and "0 < sample_rate self"
  shows "\<exists>idx. nearest_bin (bin_freqs self audio) f0 = Inr idx
           \<and> idx < length audio
           \<and> (\<forall>j<length audio.
                 \<bar>bin_freqs self audio ! idx - f0\<bar> \<le> \<bar>bin_freqs self audio ! j - f0\<bar>)
           \<and> calculate_thd_n self audio f0 =
               Inr (if bin_power audio idx = 0 then PInf
                    else Fin (sqrt ((total_bin_power audio - bin_power audio idx)
                                    / bin_power audio idx) * 100))"
proof -
  obtain idx hp where idx: "idx < length audio"
      "\<forall>j<length audio. \<bar>bin_freqs self audio ! idx - f0\<bar> \<le> \<bar>bin_freqs self audio ! j - f0\<bar>"
      "nearest_bin (bin_freqs self audio) f0 = Inr idx"
    and L: "thd_n_locals self audio f0 =
              Inr \<lparr>fundamental_idx = idx, fundamental_power = bin_power audio idx,
                   harmonic_power = hp, total_power = total_bin_power audio,
                   noise_and_distortion_power = total_bin_power audio - bin_power audio idx\<rparr>"
    using thd_n_locals_value [OF assms] by blast
  have nd: "0 \<le> total_bin_power audio - bin_power audio idx"
    using bin_power_le_total [OF idx(1)] by simp
  have r: "calculate_thd_n self audio f0 =
             Inr (if bin_power audio idx = 0 then PInf
                  else Fin (sqrt ((total_bin_power audio - bin_power audio idx)
                                  / bin_power audio idx) * 100))"
  proof (cases "bin_power audio idx = 0")
    case True
    then show ?thesis unfolding calculate_thd_n_of_locals [OF L] by simp
  next
    case False
    then show ?thesis
      unfolding calculate_thd_n_of_locals [OF L]
      using thd_ratio_value [OF nd bin_power_nonneg False] by simp
  qed
  show ?thesis using idx r by blast
qed

theorem calculate_thd_n_nonempty_witness:
  "[1, 0] \<noteq> ([] :: real list) \<and> 0 < sample_rate AudioQualityAnalyzer_init
   \<and> nearest_bin (bin_freqs AudioQualityAnalyzer_init [1, 0]) 440 = Inr 0
   \<and> calculate_thd_n AudioQualityAnalyzer_init [1, 0] 440 = Inr (Fin 100)"
  using calculate_thd_n_nonempty [of "[1, 0]" AudioQualityAnalyzer_init 440]
  by (simp add: nearest_bin_example bin_power_example sample_rate_init)


text \<open>
  C10: whenever \<open>calculate_thd_n\<close> reaches its local variables with a nonzero fundamental
  power, the argument of the square root is not negative, and the result is a finite number
  \<open>\<ge> 0\<close>.
\<close>

theorem thd_n_nonnegative:
  assumes "thd_n_locals self audio f0 = Inr L" and "fundamental_power L \<noteq> 0"
  shows "0 \<le> noise_and_distortion_power L / fundamental_power L
       \<and> (\<exists>v. calculate_thd_n self audio f0 = Inr (Fin v) \<and> 0 \<le> v)"
proof -
  have ne: "audio \<noteq> []" and sr: "0 < sample_rate self"
    using thd_n_locals_nonempty [OF assms(1)] by simp_all
  obtain idx hp where idx: "idx < length audio"
    and L: "thd_n_locals self audio f0 =
              Inr \<lparr>fundamental_idx = idx, fundamental_power = bin_power audio idx,
                   harmonic_power = hp, total_power = total_bin_power audio,
                   noise_and_distortion_power = total_bin_power audio - bin_power audio idx\<rparr>"
    using thd_n_locals_value [OF ne sr] by blast
  have fp: "fundamental_power L = bin_power audio idx"
    and nd: "noise_and_distortion_power L = total_bin_power audio - bin_power audio idx"
    using assms(1) L by auto
  have nd0: "0 \<le> noise_and_distortion_power L"
    unfolding nd using bin_power_le_total [OF idx] by simp
  have fp0: "0 \<le> fundamental_power L" unfolding fp by (rule bin_power_nonneg)
  have q: "0 \<le> noise_and_distortion_power L / fundamental_power L"
    using nd0 fp0 by simp
  have "calculate_thd_n self audio f0 =
          Inr (Fin (sqrt (noise_and_distortion_power L / fundamental_power L) * 100))"
    unfolding calculate_thd_n_of_locals [OF assms(1)]
    using thd_ratio_value [OF nd0 fp0 assms(2)] assms(2) by simp
  moreover have "0 \<le> sqrt (noise_and_distortion_power L / fundamental_power L) * 100"
    using q by simp
  ultimately show ?thesis using q by blast
qed

theorem thd_n_nonnegative_witness:
  "thd_n_locals AudioQualityAnalyzer_init [1, 0] 440 =
     Inr \<lparr>fundamental_idx = 0, fundamental_power = 1, harmonic_power = 4, total_power = 2,
          noise_and_distortion_power = 1\<rparr>
   \<and> fundamental_power \<lparr>fundamental_idx = 0, fundamental_power = 1, harmonic_power = 4,
          total_power = 2, noise_and_distortion_power = 1\<rparr> \<noteq> 0
   \<and> calculate_thd_n AudioQualityAnalyzer_init [1, 0] 440 = Inr (Fin 100)"
  using thd_n_nonnegative [OF thd_n_locals_example] thd_n_locals_example
  by (simp add: calculate_thd_n_of_locals)

subsection \<open>The correlation\<close>

text \<open>
  C5, as the claim states it, fails: on buffers of one and two samples the lengths differ
  and an error is raised, since \<open>pearsonr\<close> receives two arrays of one sample and rejects
  arrays of fewer than two.
\<close>

theorem calculate_correlation_short_counterexample:
  "length [1 :: real] \<noteq> length [1, 2 :: real]
   \<and> calculate_correlation scipy_pearsonr [1] [1, 2] = Inl TooShort"
  by (simp add: calculate_correlation_def scipy_pearsonr_def)

text \<open>
  C5, amended: on every pair of buffers \<open>calculate_correlation\<close> hands \<open>pearsonr\<close> the first
  \<open>min (len audio1) (len audio2)\<close> samples of each buffer, two arrays of that same length,
  whatever \<open>pearsonr\<close> is; and when the shorter buffer has at least two samples no error is
  raised, equal lengths or not: the result is the Pearson coefficient of the truncated pair.
\<close>

theorem calculate_correlation_truncates:
  "calculate_correlation pearsonr audio1 audio2
     = pearsonr (take (min (length audio1) (length audio2)) audio1)
                (take (min (length audio1) (length audio2)) audio2)
   \<and> length (take (min (length audio1) (length audio2)) audio1) = min (length audio1) (length audio2)
   \<and> length (take (min (length audio1) (length audio2)) audio2) = min (length audio1) (length audio2)
   \<and> (2 \<le> min (length audio1) (length audio2) \<longrightarrow>
        calculate_correlation scipy_pearsonr audio1 audio2
          = Inr (pearson_coefficient (take (min (length audio1) (length audio2)) audio1)
                                     (take (min (length audio1) (length audio2)) audio2)))"
  by (auto simp: calculate_correlation_def scipy_pearsonr_def Let_def)

lemma pearson_coefficient_example: "pearson_coefficient [0, 0, 2, 2] [0, 0, 2, 2] = Fin 1"
  by (simp add: pearson_coefficient_def np_square_def)

theorem calculate_correlation_truncates_witness:
  "length [0, 0, 2, 2 :: real] \<noteq> length [0, 0, 2, 2, 9, 9 :: real]
   \<and> (2 :: nat) \<le> min (length [0, 0, 2, 2 :: real]) (length [0, 0, 2, 2, 9, 9 :: real])
   \<and> calculate_correlation scipy_pearsonr [0, 0, 2, 2] [0, 0, 2, 2, 9, 9] = Inr (Fin 1)"
  using calculate_correlation_truncates [of scipy_pearsonr "[0, 0, 2, 2]" "[0, 0, 2, 2, 9, 9]"]
  by (auto simp: pearson_coefficient_example)

end
